theory Spec2Isabelle
  imports Complex_Main
begin

section \<open>Numbers and constants\<close>

text \<open>
  The simulation core of the game (classes \<open>Bird\<close>, \<open>Pipe\<close>, \<open>Game\<close> of \<open>game.js\<close> and of
  its variant with particles) is embedded here. JavaScript numbers are modelled as
  mathematical reals, so \<open>+\<close>, \<open>-\<close> and \<open>*\<close> are exact; the score, which only ever
  starts at 0 and is incremented, is a natural number. Drawing, images, fonts, rotation and
  particles never feed back into the simulation and are left out.
\<close>

definition SCREEN_WIDTH :: real where "SCREEN_WIDTH = 400"
definition SCREEN_HEIGHT :: real where "SCREEN_HEIGHT = 600"

definition BIRD_X :: real where "BIRD_X = 50"
definition BIRD_WIDTH :: real where "BIRD_WIDTH = 34"
definition BIRD_HEIGHT :: real where "BIRD_HEIGHT = 24"

definition PIPE_WIDTH :: real where "PIPE_WIDTH = 80"
definition PIPE_GAP :: real where "PIPE_GAP = 150"

text \<open>
  The source variants differ in four numbers only: the constants \<open>GRAVITY\<close>,
  \<open>JUMP_STRENGTH\<close>, \<open>PIPE_SPEED\<close>, and the literal spawn interval in \<open>Game.update\<close>
  (which the specification calls \<open>SPAWN_INTERVAL\<close>). They are collected in a record so
  that every definition below is the code of all variants at once.
\<close>

record config =
  GRAVITY :: real
  JUMP_STRENGTH :: real
  PIPE_SPEED :: real
  SPAWN_INTERVAL :: real

definition game_js :: config where
  "game_js = \<lparr>GRAVITY = 1 / 2, JUMP_STRENGTH = - 10, PIPE_SPEED = 3, SPAWN_INTERVAL = 1500\<rparr>"

definition part_000 :: config where
  "part_000 = \<lparr>GRAVITY = 45 / 100, JUMP_STRENGTH = - 9, PIPE_SPEED = 5 / 2, SPAWN_INTERVAL = 1700\<rparr>"

section \<open>Bird\<close>

text \<open>
  The fields \<open>x\<close>, \<open>y\<close>, \<open>width\<close>, \<open>height\<close> of the class carry the prefix \<open>bird_\<close>
  (those of \<open>Pipe\<close> the prefix \<open>pipe_\<close>), since both classes use the same field names.
\<close>

record Bird =
  bird_x :: real
  bird_y :: real
  vel :: real
  bird_width :: real
  bird_height :: real

definition new_Bird :: Bird where
  "new_Bird = \<lparr>bird_x = BIRD_X, bird_y = SCREEN_HEIGHT / 2, vel = 0,
               bird_width = BIRD_WIDTH, bird_height = BIRD_HEIGHT\<rparr>"

definition Bird_update :: "config \<Rightarrow> Bird \<Rightarrow> Bird" where
  "Bird_update cfg b =
     (let b1 = b\<lparr>vel := vel b + GRAVITY cfg\<rparr>
      in b1\<lparr>bird_y := bird_y b1 + vel b1\<rparr>)"

definition jump :: "config \<Rightarrow> Bird \<Rightarrow> Bird" where
  "jump cfg b = b\<lparr>vel := JUMP_STRENGTH cfg\<rparr>"

record Bounds =
  bounds_left :: real
  bounds_right :: real
  bounds_top :: real
  bounds_bottom :: real

definition getBounds :: "Bird \<Rightarrow> Bounds" where
  "getBounds b = \<lparr>bounds_left = bird_x b, bounds_right = bird_x b + bird_width b,
                  bounds_top = bird_y b, bounds_bottom = bird_y b + bird_height b\<rparr>"

section \<open>Pipe\<close>

record Pipe =
  pipe_x :: real
  pipe_width :: real
  gap :: real
  topHeight :: real
  bottomY :: real
  passed :: bool

text \<open>The constructor; \<open>rnd\<close> is the value returned by its call of \<open>Math.random()\<close>.\<close>

definition new_Pipe :: "real \<Rightarrow> Pipe" where
  "new_Pipe rnd =
     (let th = rnd * (SCREEN_HEIGHT - PIPE_GAP - 100) + 50
      in \<lparr>pipe_x = SCREEN_WIDTH, pipe_width = PIPE_WIDTH, gap = PIPE_GAP,
          topHeight = th, bottomY = th + PIPE_GAP, passed = False\<rparr>)"

definition Pipe_update :: "config \<Rightarrow> Pipe \<Rightarrow> Pipe" where
  "Pipe_update cfg p = p\<lparr>pipe_x := pipe_x p - PIPE_SPEED cfg\<rparr>"

text \<open>\<open>Pipe.checkCollision\<close> as the first version in \<open>game.js\<close> writes it: two tests in a row.\<close>

definition checkCollision :: "Pipe \<Rightarrow> Bird \<Rightarrow> bool" where
  "checkCollision p bird =
     (let birdBounds = getBounds bird in
      if bounds_right birdBounds > pipe_x p \<and> bounds_left birdBounds < pipe_x p + pipe_width p \<and>
         bounds_top birdBounds < topHeight p
      then True
      else if bounds_right birdBounds > pipe_x p \<and> bounds_left birdBounds < pipe_x p + pipe_width p \<and>
              bounds_bottom birdBounds > bottomY p
      then True
      else False)"

text \<open>The same method as the later versions write it: one horizontal test around a vertical one.\<close>

definition checkCollision_nested :: "Pipe \<Rightarrow> Bird \<Rightarrow> bool" where
  "checkCollision_nested p bird =
     (let birdBounds = getBounds bird in
      if bounds_right birdBounds > pipe_x p \<and> bounds_left birdBounds < pipe_x p + pipe_width p
      then (if bounds_top birdBounds < topHeight p \<or> bounds_bottom birdBounds > bottomY p
            then True else False)
      else False)"

definition isOffscreen :: "Pipe \<Rightarrow> bool" where
  "isOffscreen p = (pipe_x p + pipe_width p < 0)"

section \<open>Game\<close>

record Game =
  bird :: Bird
  pipes :: "Pipe list"
  score :: nat
  gameOver :: bool
  lastPipeSpawn :: real

definition reset :: "Game \<Rightarrow> Game" where
  "reset g = g\<lparr>bird := new_Bird, pipes := [], score := 0, gameOver := False, lastPipeSpawn := 0\<rparr>"

text \<open>The constructor calls \<open>reset\<close> on the fresh object, so the first state is:\<close>

definition new_Game :: Game where
  "new_Game = \<lparr>bird = new_Bird, pipes = [], score = 0, gameOver = False, lastPipeSpawn = 0\<rparr>"

text \<open>
  The body of the \<open>forEach\<close> callback of \<open>Game.update\<close> for one pipe: it moves the pipe, sets
  \<open>passed\<close> and counts a point when the pipe is behind the bird, and raises \<open>gameOver\<close> on a
  collision. The loop threads the score and the flag through the pipes in order.
\<close>

definition pipe_step :: "config \<Rightarrow> Bird \<Rightarrow> Pipe \<Rightarrow> Pipe" where
  "pipe_step cfg b p =
     (let p1 = Pipe_update cfg p in
      if \<not> passed p1 \<and> pipe_x p1 + pipe_width p1 < bird_x b then p1\<lparr>passed := True\<rparr> else p1)"

definition scores_now :: "config \<Rightarrow> Bird \<Rightarrow> Pipe \<Rightarrow> bool" where
  "scores_now cfg b p =
     (let p1 = Pipe_update cfg p in \<not> passed p1 \<and> pipe_x p1 + pipe_width p1 < bird_x b)"

fun forEach_pipe :: "config \<Rightarrow> Bird \<Rightarrow> Pipe list \<Rightarrow> nat \<Rightarrow> bool \<Rightarrow> Pipe list \<times> nat \<times> bool" where
  "forEach_pipe cfg b [] sc over = ([], sc, over)"
| "forEach_pipe cfg b (p # ps) sc over =
     (let p2 = pipe_step cfg b p;
          sc2 = (if scores_now cfg b p then sc + 1 else sc);
          over2 = (if checkCollision p2 b then True else over);
          (ps', sc', over') = forEach_pipe cfg b ps sc2 over2
      in (p2 # ps', sc', over'))"

text \<open>
  \<open>Game.update\<close>. The two calls of \<open>performance.now()\<close> return \<open>now1\<close> (in the spawn test)
  and \<open>now2\<close> (stored as the spawn time); \<open>rnd\<close> is the random number a new pipe would draw.
  The spawn test and the collection after the spawn step have names of their own, since
  the properties below speak about them.
\<close>

definition spawn_due :: "config \<Rightarrow> real \<Rightarrow> Game \<Rightarrow> bool" where
  "spawn_due cfg now1 g = (lastPipeSpawn g = 0 \<or> now1 - lastPipeSpawn g \<ge> SPAWN_INTERVAL cfg)"

definition spawn_pipes :: "config \<Rightarrow> real \<Rightarrow> real \<Rightarrow> Game \<Rightarrow> Pipe list" where
  "spawn_pipes cfg now1 rnd g = (if spawn_due cfg now1 g then pipes g @ [new_Pipe rnd] else pipes g)"

definition Game_update :: "config \<Rightarrow> real \<Rightarrow> real \<Rightarrow> real \<Rightarrow> Game \<Rightarrow> Game" where
  "Game_update cfg now1 now2 rnd g =
     (if gameOver g then g
      else
        let b = Bird_update cfg (bird g);
            ps0 = spawn_pipes cfg now1 rnd g;
            lps = (if spawn_due cfg now1 g then now2 else lastPipeSpawn g);
            (ps1, sc1, over1) = forEach_pipe cfg b ps0 (score g) (gameOver g);
            ps2 = filter (\<lambda>pipe. \<not> isOffscreen pipe) ps1;
            over2 = (if bird_y b < 0 \<or> bird_y b + bird_height b > SCREEN_HEIGHT then True else over1)
        in \<lparr>bird = b, pipes = ps2, score = sc1, gameOver = over2, lastPipeSpawn = lps\<rparr>)"

text \<open>
  What can happen to a game: a frame in which \<open>gameLoop\<close> calls \<open>update\<close>, and the input
  handlers of \<open>setupEventListeners\<close> (the space bar, the R key, and a click or touch).
\<close>

datatype event = Tick real real real | KeySpace | KeyR | Click

fun handle :: "config \<Rightarrow> Game \<Rightarrow> event \<Rightarrow> Game" where
  "handle cfg g (Tick now1 now2 rnd) = Game_update cfg now1 now2 rnd g"
| "handle cfg g KeySpace = (if \<not> gameOver g then g\<lparr>bird := jump cfg (bird g)\<rparr> else g)"
| "handle cfg g KeyR = (if gameOver g then reset g else g)"
| "handle cfg g Click = (if \<not> gameOver g then g\<lparr>bird := jump cfg (bird g)\<rparr> else reset g)"

definition run :: "config \<Rightarrow> Game \<Rightarrow> event list \<Rightarrow> Game" where
  "run cfg g es = foldl (handle cfg) g es"

section \<open>Runs, reachable states and what a run records\<close>

text \<open>
  A frame is well formed when its clock readings are positive and in order and its random
  number lies in \<open>[0, 1)\<close>, as \<open>performance.now()\<close> and \<open>Math.random()\<close> promise.
\<close>

fun event_ok :: "event \<Rightarrow> bool" where
  "event_ok (Tick now1 now2 rnd) = (0 < now1 \<and> now1 \<le> now2 \<and> 0 \<le> rnd \<and> rnd < 1)"
| "event_ok _ = True"

inductive reachable :: "config \<Rightarrow> Game \<Rightarrow> bool" for cfg :: config where
  init: "reachable cfg new_Game"
| step: "reachable cfg g \<Longrightarrow> event_ok e \<Longrightarrow> reachable cfg (handle cfg g e)"

text \<open>An input performs a reset exactly when the game is over and the input is R or a click.\<close>

fun performs_reset :: "Game \<Rightarrow> event \<Rightarrow> bool" where
  "performs_reset g KeyR = gameOver g"
| "performs_reset g Click = gameOver g"
| "performs_reset g _ = False"

fun reset_free :: "config \<Rightarrow> Game \<Rightarrow> event list \<Rightarrow> bool" where
  "reset_free cfg g [] = True"
| "reset_free cfg g (e # es) = (\<not> performs_reset g e \<and> reset_free cfg (handle cfg g e) es)"

fun is_Tick :: "event \<Rightarrow> bool" where
  "is_Tick (Tick now1 now2 rnd) = True"
| "is_Tick _ = False"

text \<open>The states a run goes through, the first one included.\<close>

fun history :: "config \<Rightarrow> Game \<Rightarrow> event list \<Rightarrow> Game list" where
  "history cfg g [] = [g]"
| "history cfg g (e # es) = g # history cfg (handle cfg g e) es"

text \<open>
  The life of one pipe: the values it takes as the loop of \<open>Game.update\<close> visits it frame
  after frame, \<open>bs\<close> being the birds of those frames, from its first value to its last.
  \<open>flips\<close> counts how often the \<open>passed\<close> flag goes from false to true along the way.
\<close>

fun life :: "config \<Rightarrow> Pipe \<Rightarrow> Bird list \<Rightarrow> Pipe list" where
  "life cfg p [] = [p]"
| "life cfg p (b # bs) = p # life cfg (pipe_step cfg b p) bs"

fun flips :: "Pipe list \<Rightarrow> nat" where
  "flips (p # q # ps) = (if \<not> passed p \<and> passed q then 1 else 0) + flips (q # ps)"
| "flips ps = 0"

text \<open>The number of live pipes whose \<open>passed\<close> flag is set.\<close>

definition passed_count :: "Game \<Rightarrow> nat" where
  "passed_count g = length (filter passed (pipes g))"

text \<open>
  The number of pipes that the \<open>filter\<close> at the end of \<open>Game.update\<close> drops in one event,
  and the number dropped during a run since the last reset (\<open>k\<close> counts those so far).
\<close>

fun dropped :: "config \<Rightarrow> Game \<Rightarrow> event \<Rightarrow> nat" where
  "dropped cfg g (Tick now1 now2 rnd) =
     (if gameOver g then 0
      else let (ps1, sc1, over1) =
                 forEach_pipe cfg (Bird_update cfg (bird g)) (spawn_pipes cfg now1 rnd g) (score g) (gameOver g)
           in length (filter isOffscreen ps1))"
| "dropped cfg g _ = 0"

fun removed_since_reset :: "config \<Rightarrow> Game \<Rightarrow> nat \<Rightarrow> event list \<Rightarrow> nat" where
  "removed_since_reset cfg g k [] = k"
| "removed_since_reset cfg g k (e # es) =
     removed_since_reset cfg (handle cfg g e)
       (if performs_reset g e then 0 else k + dropped cfg g e) es"

text \<open>
  What a run records about spawning, oldest entry first: the stored time of every spawn,
  and a mark for every reset.
\<close>

datatype log_entry = Spawned real | WasReset

fun log_event :: "config \<Rightarrow> Game \<Rightarrow> event \<Rightarrow> log_entry list" where
  "log_event cfg g (Tick now1 now2 rnd) =
     (if \<not> gameOver g \<and> spawn_due cfg now1 g then [Spawned now2] else [])"
| "log_event cfg g KeySpace = []"
| "log_event cfg g e = (if performs_reset g e then [WasReset] else [])"

fun spawn_log :: "config \<Rightarrow> Game \<Rightarrow> event list \<Rightarrow> log_entry list" where
  "spawn_log cfg g [] = []"
| "spawn_log cfg g (e # es) = log_event cfg g e @ spawn_log cfg (handle cfg g e) es"

fun is_Spawned :: "log_entry \<Rightarrow> bool" where
  "is_Spawned (Spawned t) = True"
| "is_Spawned WasReset = False"

text \<open>
  \<open>spaced d l\<close>: two spawns that follow each other in \<open>l\<close> with nothing in between lie at
  least \<open>d\<close> apart. On a log with the reset marks filtered out this compares every two
  consecutive spawns; on the full log only those of one game.
\<close>

fun spaced :: "real \<Rightarrow> log_entry list \<Rightarrow> bool" where
  "spaced d (Spawned s # Spawned t # l) = (d \<le> t - s \<and> spaced d (Spawned t # l))"
| "spaced d (e # l) = spaced d l"
| "spaced d [] = True"

section \<open>The collision test as the specification words it\<close>

text \<open>
  Two horizontal spans overlap when they share more than a boundary point, that is, when
  the larger of the left ends lies strictly left of the smaller of the right ends.
\<close>

definition spans_overlap :: "real \<Rightarrow> real \<Rightarrow> real \<Rightarrow> real \<Rightarrow> bool" where
  "spans_overlap l1 r1 l2 r2 = (max l1 l2 < min r1 r2)"

definition collidesWith_spec :: "Pipe \<Rightarrow> Bird \<Rightarrow> bool" where
  "collidesWith_spec p b =
     (spans_overlap (pipe_x p) (pipe_x p + pipe_width p) (bird_x b) (bird_x b + bird_width b) \<and>
      (bird_y b < topHeight p \<or> bird_y b + bird_height b > bottomY p))"

section \<open>What holds in every reachable state\<close>

text \<open>
  A pipe agrees with the bird when its flag says exactly whether it lies behind the bird;
  in a good state the bird stands at \<open>BIRD_X\<close> and every live pipe agrees with it.
\<close>

definition pipe_ok :: "Bird \<Rightarrow> Pipe \<Rightarrow> bool" where
  "pipe_ok b p = (passed p \<longleftrightarrow> pipe_x p + pipe_width p < bird_x b)"

definition good :: "Game \<Rightarrow> bool" where
  "good g = (bird_x (bird g) = BIRD_X \<and> list_all (pipe_ok (bird g)) (pipes g))"

section \<open>Concrete runs\<close>

text \<open>\<open>frames k n\<close>: the frames number \<open>k\<close> to \<open>k + n - 1\<close>, one every 17 ms, each drawing 3/8.\<close>

definition frames :: "nat \<Rightarrow> nat \<Rightarrow> event list" where
  "frames k n = map (\<lambda>i. Tick (17 * real i) (17 * real i) (3 / 8)) [k ..< k + n]"

text \<open>
  \<open>hop k n\<close>: a click and then \<open>n\<close> frames. A player who clicks every 39 frames keeps the
  bird between 205 and 300 and flies through the first pipe: after the 143 frames of
  \<open>approach\<close> that pipe is about to fall behind the bird, in frame 144 it does, and in frame
  161, the last of \<open>flight\<close>, it leaves the screen.
\<close>

definition hop :: "nat \<Rightarrow> nat \<Rightarrow> event list" where
  "hop k n = Click # frames k n"

definition approach :: "event list" where
  "approach = hop 1 39 @ hop 40 39 @ hop 79 39 @ hop 118 26"

definition flight :: "event list" where
  "flight = approach @ frames 144 13 @ hop 157 5"

text \<open>Shorthands for the birds and pipes of these runs (every pipe drew 3/8).\<close>

definition bird_at :: "real \<Rightarrow> real \<Rightarrow> Bird" where
  "bird_at y_pos v = \<lparr>bird_x = 50, bird_y = y_pos, vel = v, bird_width = 34, bird_height = 24\<rparr>"

definition pipe_at :: "real \<Rightarrow> bool \<Rightarrow> Pipe" where
  "pipe_at x_pos flag = \<lparr>pipe_x = x_pos, pipe_width = 80, gap = 150, topHeight = 725 / 4,
                          bottomY = 1325 / 4, passed = flag\<rparr>"

text \<open>
  A player who does nothing hits the floor in frame 33, clicks to restart, and sees one
  more frame.
\<close>

definition crash_restart :: "event list" where
  "crash_restart = frames 1 33 @ Click # frames 34 1"

text \<open>The example of the specification: a bird at height 100 inside a pipe at 40.\<close>

definition example_bird :: Bird where
  "example_bird = new_Bird\<lparr>bird_y := 100\<rparr>"

definition example_pipe :: Pipe where
  "example_pipe = \<lparr>pipe_x = 40, pipe_width = 80, gap = 150, topHeight = 80, bottomY = 230, passed = False\<rparr>"

section \<open>The per-frame loop in closed form\<close>

lemma reset_new_Game: "reset g = new_Game"
  by (simp add: reset_def new_Game_def)

lemma run_Nil: "run cfg g [] = g"
  by (simp add: run_def)

lemma run_Cons: "run cfg g (e # es) = run cfg (handle cfg g e) es"
  by (simp add: run_def)

lemma run_append: "run cfg g (es @ fs) = run cfg (run cfg g es) fs"
  by (simp add: run_def)

lemma forEach_pipe_eq:
  "forEach_pipe cfg b ps sc over =
     (map (pipe_step cfg b) ps,
      sc + length (filter (scores_now cfg b) ps),
      over \<or> list_ex (\<lambda>p. checkCollision (pipe_step cfg b p) b) ps)"
  by (induction ps arbitrary: sc over) (simp_all add: Let_def)

lemma Game_update_over: "gameOver g \<Longrightarrow> Game_update cfg now1 now2 rnd g = g"
  by (simp add: Game_update_def)

lemma Game_update_bird:
  "\<not> gameOver g \<Longrightarrow> bird (Game_update cfg now1 now2 rnd g) = Bird_update cfg (bird g)"
  by (simp add: Game_update_def forEach_pipe_eq Let_def)

lemma Game_update_pipes:
  "\<not> gameOver g \<Longrightarrow> pipes (Game_update cfg now1 now2 rnd g) =
     filter (\<lambda>p. \<not> isOffscreen p)
       (map (pipe_step cfg (Bird_update cfg (bird g))) (spawn_pipes cfg now1 rnd g))"
  by (simp add: Game_update_def forEach_pipe_eq Let_def)

lemma Game_update_score:
  "\<not> gameOver g \<Longrightarrow> score (Game_update cfg now1 now2 rnd g) =
     score g + length (filter (scores_now cfg (Bird_update cfg (bird g))) (spawn_pipes cfg now1 rnd g))"
  by (simp add: Game_update_def forEach_pipe_eq Let_def)

lemma Game_update_gameOver:
  "\<not> gameOver g \<Longrightarrow> gameOver (Game_update cfg now1 now2 rnd g) =
     (list_ex (\<lambda>p. checkCollision (pipe_step cfg (Bird_update cfg (bird g)) p) (Bird_update cfg (bird g)))
        (spawn_pipes cfg now1 rnd g)
      \<or> bird_y (Bird_update cfg (bird g)) < 0
      \<or> bird_y (Bird_update cfg (bird g)) + bird_height (Bird_update cfg (bird g)) > SCREEN_HEIGHT)"
  by (auto simp add: Game_update_def forEach_pipe_eq Let_def)

lemma Game_update_lastPipeSpawn:
  "\<not> gameOver g \<Longrightarrow> lastPipeSpawn (Game_update cfg now1 now2 rnd g) =
     (if spawn_due cfg now1 g then now2 else lastPipeSpawn g)"
  by (simp add: Game_update_def forEach_pipe_eq Let_def)

lemma checkCollision_nested_eq: "checkCollision_nested p b = checkCollision p b"
  by (auto simp add: checkCollision_nested_def checkCollision_def Let_def)

lemma checkCollision_iff:
  "checkCollision p b \<longleftrightarrow>
     pipe_x p < bird_x b + bird_width b \<and> bird_x b < pipe_x p + pipe_width p \<and>
     (bird_y b < topHeight p \<or> bottomY p < bird_y b + bird_height b)"
  by (auto simp add: checkCollision_def getBounds_def Let_def)

lemma Bird_update_x [simp]: "bird_x (Bird_update cfg b) = bird_x b"
  by (simp add: Bird_update_def Let_def)

lemma score_Game_update_mono: "score g \<le> score (Game_update cfg now1 now2 rnd g)"
  by (cases "gameOver g") (simp_all add: Game_update_over Game_update_score)

lemma score_handle_mono: "\<not> performs_reset g e \<Longrightarrow> score g \<le> score (handle cfg g e)"
  by (cases e) (simp_all add: score_Game_update_mono)

lemma score_run_mono: "reset_free cfg g es \<Longrightarrow> score g \<le> score (run cfg g es)"
proof (induction es arbitrary: g)
  case Nil
  show ?case by (simp add: run_Nil)
next
  case (Cons e es)
  from Cons.prems have a: "\<not> performs_reset g e" and b: "reset_free cfg (handle cfg g e) es"
    by simp_all
  have "score g \<le> score (handle cfg g e)"
    using a by (rule score_handle_mono)
  also have "\<dots> \<le> score (run cfg (handle cfg g e) es)"
    using b by (rule Cons.IH)
  finally show ?case by (simp add: run_Cons)
qed

lemma reset_free_append:
  "reset_free cfg g (es @ fs) \<longleftrightarrow> reset_free cfg g es \<and> reset_free cfg (run cfg g es) fs"
  by (induction es arbitrary: g) (simp_all add: run_Nil run_Cons)

lemma run_ticks_over: "gameOver g \<Longrightarrow> list_all is_Tick es \<Longrightarrow> run cfg g es = g"
proof (induction es)
  case Nil
  show ?case by (simp add: run_Nil)
next
  case (Cons e es)
  from Cons.prems(2) obtain now1 now2 rnd where e: "e = Tick now1 now2 rnd"
    by (cases e) simp_all
  from Cons show ?case
    by (simp add: e run_Cons Game_update_over)
qed

section \<open>The collision test\<close>

text \<open>
  C1. For every pipe and bird (their widths are positive: 80 and 34 in every object the
  program builds), \<open>checkCollision\<close>, in both ways the sources write it, is true if and
  only if the horizontal span of the pipe overlaps that of the bird and the top edge of the
  bird is above \<open>topHeight\<close> or its bottom edge below \<open>bottomY\<close>. In particular a bird with
  top 100 and bottom 124 whose span overlaps that of a pipe at 40 of width 80 does not
  collide when the gap runs from 80 to 230, and collides when the gap starts at 150.
\<close>

theorem checkCollision_spec:
  "(\<forall>p b. 0 < pipe_width p \<longrightarrow> 0 < bird_width b \<longrightarrow>
      (checkCollision p b \<longleftrightarrow> collidesWith_spec p b) \<and>
      (checkCollision_nested p b \<longleftrightarrow> collidesWith_spec p b)) \<and>
   bird_y example_bird = 100 \<and> bird_y example_bird + bird_height example_bird = 124 \<and>
   spans_overlap (pipe_x example_pipe) (pipe_x example_pipe + pipe_width example_pipe)
     (bird_x example_bird) (bird_x example_bird + bird_width example_bird) \<and>
   \<not> checkCollision example_pipe example_bird \<and>
   \<not> checkCollision_nested example_pipe example_bird \<and>
   checkCollision (example_pipe\<lparr>topHeight := 150\<rparr>) example_bird \<and>
   checkCollision_nested (example_pipe\<lparr>topHeight := 150\<rparr>) example_bird"
proof -
  have general: "(checkCollision p b \<longleftrightarrow> collidesWith_spec p b) \<and>
      (checkCollision_nested p b \<longleftrightarrow> collidesWith_spec p b)"
    if "0 < pipe_width p" "0 < bird_width b" for p b
    using that
    by (auto simp add: checkCollision_nested_eq checkCollision_iff collidesWith_spec_def
        spans_overlap_def)
  have example: "bird_y example_bird = 100 \<and> bird_y example_bird + bird_height example_bird = 124 \<and>
   spans_overlap (pipe_x example_pipe) (pipe_x example_pipe + pipe_width example_pipe)
     (bird_x example_bird) (bird_x example_bird + bird_width example_bird) \<and>
   \<not> checkCollision example_pipe example_bird \<and>
   \<not> checkCollision_nested example_pipe example_bird \<and>
   checkCollision (example_pipe\<lparr>topHeight := 150\<rparr>) example_bird \<and>
   checkCollision_nested (example_pipe\<lparr>topHeight := 150\<rparr>) example_bird"
    by (simp add: checkCollision_nested_eq checkCollision_iff spans_overlap_def
        example_bird_def example_pipe_def new_Bird_def BIRD_X_def BIRD_WIDTH_def BIRD_HEIGHT_def)
  from general example show ?thesis by blast
qed

theorem checkCollision_spec_witness:
  "0 < pipe_width (new_Pipe (1 / 2)) \<and> 0 < bird_width new_Bird \<and>
   (checkCollision (new_Pipe (1 / 2)) new_Bird \<longleftrightarrow> collidesWith_spec (new_Pipe (1 / 2)) new_Bird) \<and>
   \<not> collidesWith_spec (new_Pipe (1 / 2)) new_Bird"
proof -
  have w: "0 < pipe_width (new_Pipe (1 / 2)) \<and> 0 < bird_width new_Bird"
    by (simp add: new_Pipe_def new_Bird_def PIPE_WIDTH_def BIRD_WIDTH_def Let_def)
  have n: "\<not> collidesWith_spec (new_Pipe (1 / 2)) new_Bird"
    by (simp add: collidesWith_spec_def spans_overlap_def new_Pipe_def new_Bird_def Let_def
        PIPE_WIDTH_def BIRD_WIDTH_def BIRD_X_def SCREEN_WIDTH_def)
  from w n checkCollision_spec show ?thesis by blast
qed

text \<open>
  C9. Every comparison of \<open>checkCollision\<close> is strict, so touching is no collision: the test
  is false when the right edge of the bird equals the \<open>x\<close> of the pipe, when the left edge
  of the bird equals the right edge of the pipe, and when the top edge of the bird equals
  \<open>topHeight\<close> or its bottom edge equals \<open>bottomY\<close> while the bird is otherwise inside the
  gap (whatever the horizontal position, so also with horizontal overlap).
\<close>

theorem checkCollision_strict:
  "(bird_x b + bird_width b = pipe_x p \<longrightarrow> \<not> checkCollision p b \<and> \<not> checkCollision_nested p b) \<and>
   (bird_x b = pipe_x p + pipe_width p \<longrightarrow> \<not> checkCollision p b \<and> \<not> checkCollision_nested p b) \<and>
   (bird_y b = topHeight p \<and> bird_y b + bird_height b \<le> bottomY p \<longrightarrow>
      \<not> checkCollision p b \<and> \<not> checkCollision_nested p b) \<and>
   (bird_y b + bird_height b = bottomY p \<and> topHeight p \<le> bird_y b \<longrightarrow>
      \<not> checkCollision p b \<and> \<not> checkCollision_nested p b)"
  by (auto simp add: checkCollision_nested_eq checkCollision_iff)

theorem checkCollision_strict_witness:
  "(bird_x example_bird + bird_width example_bird = pipe_x (example_pipe\<lparr>pipe_x := 84, topHeight := 150\<rparr>) \<and>
    \<not> checkCollision (example_pipe\<lparr>pipe_x := 84, topHeight := 150\<rparr>) example_bird) \<and>
   (bird_x example_bird = pipe_x (example_pipe\<lparr>pipe_x := - 30, topHeight := 150\<rparr>)
       + pipe_width (example_pipe\<lparr>pipe_x := - 30, topHeight := 150\<rparr>) \<and>
    \<not> checkCollision (example_pipe\<lparr>pipe_x := - 30, topHeight := 150\<rparr>) example_bird) \<and>
   (bird_y example_bird = topHeight (example_pipe\<lparr>topHeight := 100, bottomY := 250\<rparr>) \<and>
    bird_y example_bird + bird_height example_bird \<le> bottomY (example_pipe\<lparr>topHeight := 100, bottomY := 250\<rparr>) \<and>
    spans_overlap 40 120 (bird_x example_bird) (bird_x example_bird + bird_width example_bird) \<and>
    \<not> checkCollision (example_pipe\<lparr>topHeight := 100, bottomY := 250\<rparr>) example_bird) \<and>
   (bird_y example_bird + bird_height example_bird = bottomY (example_pipe\<lparr>topHeight := - 26, bottomY := 124\<rparr>) \<and>
    topHeight (example_pipe\<lparr>topHeight := - 26, bottomY := 124\<rparr>) \<le> bird_y example_bird \<and>
    \<not> checkCollision (example_pipe\<lparr>topHeight := - 26, bottomY := 124\<rparr>) example_bird)"
  using checkCollision_strict [of example_bird "example_pipe\<lparr>pipe_x := 84, topHeight := 150\<rparr>"]
    checkCollision_strict [of example_bird "example_pipe\<lparr>pipe_x := - 30, topHeight := 150\<rparr>"]
    checkCollision_strict [of example_bird "example_pipe\<lparr>topHeight := 100, bottomY := 250\<rparr>"]
    checkCollision_strict [of example_bird "example_pipe\<lparr>topHeight := - 26, bottomY := 124\<rparr>"]
  by (simp add: example_bird_def example_pipe_def new_Bird_def spans_overlap_def
      BIRD_X_def BIRD_WIDTH_def BIRD_HEIGHT_def)

section \<open>Evaluating the concrete runs\<close>

lemmas frame_defs = frames_def upt_conv_Cons game_js_def new_Game_def new_Bird_def
  Game_update_def spawn_due_def spawn_pipes_def Bird_update_def jump_def new_Pipe_def
  Pipe_update_def checkCollision_def getBounds_def isOffscreen_def pipe_step_def
  scores_now_def reset_def Let_def
  SCREEN_WIDTH_def SCREEN_HEIGHT_def BIRD_X_def BIRD_WIDTH_def BIRD_HEIGHT_def
  PIPE_WIDTH_def PIPE_GAP_def

lemma all_frames_ok: "0 < k \<Longrightarrow> list_all event_ok (frames k n)"
  by (simp add: frames_def list_all_iff)

lemma crash_state:
  "run game_js new_Game (frames 1 33) =
     \<lparr>bird = bird_at (1161 / 2) (33 / 2), pipes = [pipe_at 301 False],
      score = 0, gameOver = True, lastPipeSpawn = 17\<rparr>"
  by (simp add: run_def frame_defs bird_at_def pipe_at_def)

section \<open>Gravity\<close>

text \<open>
  C2. A frame of a game that is not over changes the bird by exactly one step of gravity:
  the new velocity is the old one plus \<open>GRAVITY\<close>, the new height is the old one plus the
  new velocity, and nothing clamps either of them.
\<close>

theorem Game_update_gravity:
  "\<not> gameOver g \<Longrightarrow>
     vel (bird (Game_update cfg now1 now2 rnd g)) = vel (bird g) + GRAVITY cfg \<and>
     bird_y (bird (Game_update cfg now1 now2 rnd g)) =
       bird_y (bird g) + vel (bird (Game_update cfg now1 now2 rnd g))"
  by (simp add: Game_update_bird Bird_update_def Let_def)

theorem Game_update_gravity_witness:
  "\<not> gameOver new_Game \<and>
   vel (bird (Game_update game_js 17 17 (3 / 8) new_Game)) = 1 / 2 \<and>
   bird_y (bird (Game_update game_js 17 17 (3 / 8) new_Game)) = 601 / 2"
  using Game_update_gravity [of new_Game game_js 17 17 "3 / 8"]
  by (simp add: new_Game_def new_Bird_def game_js_def SCREEN_HEIGHT_def)

section \<open>The gap of a new pipe\<close>

text \<open>
  C4, as stated, fails: the constructor adds 50 to a draw from a range of length
  \<open>SCREEN_HEIGHT - PIPE_GAP - 100\<close>, so a draw of 9/10 puts \<open>topHeight\<close> at 365, above
  \<open>SCREEN_HEIGHT - PIPE_GAP - 100 = 350\<close>.
\<close>

theorem new_Pipe_topHeight_counterexample:
  "0 \<le> (9 / 10 :: real) \<and> (9 / 10 :: real) < 1 \<and>
   \<not> (50 \<le> topHeight (new_Pipe (9 / 10)) \<and>
      topHeight (new_Pipe (9 / 10)) \<le> SCREEN_HEIGHT - PIPE_GAP - 100)"
  by (simp add: new_Pipe_def Let_def SCREEN_HEIGHT_def PIPE_GAP_def)

text \<open>
  C4, amended. For every draw \<open>rnd\<close> of \<open>[0, 1)\<close> the new pipe has
  \<open>50 \<le> topHeight < SCREEN_HEIGHT - PIPE_GAP - 50\<close>: a margin of 50 above the gap and of 50
  below it.
\<close>

theorem new_Pipe_topHeight_range:
  "0 \<le> rnd \<Longrightarrow> rnd < 1 \<Longrightarrow>
     50 \<le> topHeight (new_Pipe rnd) \<and> topHeight (new_Pipe rnd) < SCREEN_HEIGHT - PIPE_GAP - 50"
  by (simp add: new_Pipe_def Let_def SCREEN_HEIGHT_def PIPE_GAP_def)

theorem new_Pipe_topHeight_range_witness:
  "0 \<le> (9 / 10 :: real) \<and> (9 / 10 :: real) < 1 \<and>
   50 \<le> topHeight (new_Pipe (9 / 10)) \<and> topHeight (new_Pipe (9 / 10)) < 400 \<and>
   topHeight (new_Pipe (9 / 10)) = 365"
  using new_Pipe_topHeight_range [of "9 / 10"]
  by (simp add: new_Pipe_def Let_def SCREEN_HEIGHT_def PIPE_GAP_def)

section \<open>Game over is sticky\<close>

text \<open>
  C5. Once \<open>gameOver\<close> is set, a frame returns the state as it is, whole: score, bird, pipes
  and last spawn time; so does every sequence of frames. Only a reset leaves the state.
\<close>

theorem gameOver_sticky:
  "gameOver g \<Longrightarrow>
     Game_update cfg now1 now2 rnd g = g \<and> (list_all is_Tick es \<longrightarrow> run cfg g es = g)"
  by (simp add: Game_update_over run_ticks_over)

theorem gameOver_sticky_witness:
  "gameOver (run game_js new_Game (frames 1 33)) \<and>
   Game_update game_js 578 578 (3 / 8) (run game_js new_Game (frames 1 33))
     = run game_js new_Game (frames 1 33) \<and>
   list_all is_Tick (frames 34 3) \<and>
   run game_js (run game_js new_Game (frames 1 33)) (frames 34 3) = run game_js new_Game (frames 1 33)"
proof -
  have over: "gameOver (run game_js new_Game (frames 1 33))"
    unfolding crash_state by simp
  have ticks: "list_all is_Tick (frames 34 3)"
    by (simp add: frames_def list_all_iff)
  from over ticks
    gameOver_sticky [OF over, of game_js 578 578 "3 / 8" "frames 34 3"]
  show ?thesis by blast
qed

section \<open>The invariant of the reachable states\<close>

lemma pipe_step_passed:
  "passed (pipe_step cfg b p) \<longleftrightarrow> passed p \<or> scores_now cfg b p"
  by (auto simp add: pipe_step_def scores_now_def Pipe_update_def Let_def)

lemma scores_now_iff:
  "scores_now cfg b p \<longleftrightarrow> \<not> passed p \<and> pipe_x p - PIPE_SPEED cfg + pipe_width p < bird_x b"
  by (auto simp add: scores_now_def Pipe_update_def Let_def)

lemma pipe_step_x: "pipe_x (pipe_step cfg b p) = pipe_x p - PIPE_SPEED cfg"
  by (simp add: pipe_step_def Pipe_update_def Let_def)

lemma pipe_step_width: "pipe_width (pipe_step cfg b p) = pipe_width p"
  by (simp add: pipe_step_def Pipe_update_def Let_def)

lemma pipe_step_ok:
  assumes "0 \<le> PIPE_SPEED cfg" and "pipe_ok b p"
  shows "pipe_ok b (pipe_step cfg b p)"
  using assms
  by (auto simp add: pipe_ok_def pipe_step_passed scores_now_iff pipe_step_x pipe_step_width)

lemma new_Pipe_ok: "bird_x b = BIRD_X \<Longrightarrow> pipe_ok b (new_Pipe rnd)"
  by (simp add: pipe_ok_def new_Pipe_def Let_def BIRD_X_def SCREEN_WIDTH_def PIPE_WIDTH_def)

lemma spawn_pipes_ok:
  assumes "good g"
  shows "list_all (pipe_ok (Bird_update cfg (bird g))) (spawn_pipes cfg now1 rnd g)"
proof -
  have same: "pipe_ok (Bird_update cfg (bird g)) = pipe_ok (bird g)"
    by (rule ext) (simp add: pipe_ok_def)
  from assms have "list_all (pipe_ok (bird g)) (pipes g)" and "pipe_ok (bird g) (new_Pipe rnd)"
    by (simp_all add: good_def new_Pipe_ok)
  then show ?thesis
    by (simp add: same spawn_pipes_def)
qed

lemma stepped_pipes_ok:
  assumes "0 \<le> PIPE_SPEED cfg" and "good g"
  shows "list_all (pipe_ok (Bird_update cfg (bird g)))
           (map (pipe_step cfg (Bird_update cfg (bird g))) (spawn_pipes cfg now1 rnd g))"
proof -
  let ?b = "Bird_update cfg (bird g)"
  have "\<forall>p \<in> set (spawn_pipes cfg now1 rnd g). pipe_ok ?b p"
    using spawn_pipes_ok [OF assms(2), of cfg now1 rnd] by (simp only: list_all_iff)
  then have "\<forall>p \<in> set (spawn_pipes cfg now1 rnd g). pipe_ok ?b (pipe_step cfg ?b p)"
    using pipe_step_ok [OF assms(1)] by blast
  then show ?thesis
    by (simp add: list_all_iff)
qed

lemma good_Game_update:
  assumes "0 \<le> PIPE_SPEED cfg" and "good g"
  shows "good (Game_update cfg now1 now2 rnd g)"
proof (cases "gameOver g")
  case True
  then have "Game_update cfg now1 now2 rnd g = g"
    by (rule Game_update_over)
  with assms(2) show ?thesis by (simp only:)
next
  case False
  let ?b = "Bird_update cfg (bird g)"
  let ?qs = "map (pipe_step cfg ?b) (spawn_pipes cfg now1 rnd g)"
  from assms(2) have bx: "bird_x ?b = BIRD_X"
    by (simp add: good_def)
  have "\<forall>p \<in> set ?qs. pipe_ok ?b p"
    using stepped_pipes_ok [OF assms, of now1 rnd] by (simp only: list_all_iff)
  then have "\<forall>p \<in> set (filter (\<lambda>p. \<not> isOffscreen p) ?qs). pipe_ok ?b p"
    by auto
  then have ps: "list_all (pipe_ok ?b) (filter (\<lambda>p. \<not> isOffscreen p) ?qs)"
    by (simp only: list_all_iff)
  show ?thesis
    unfolding good_def Game_update_bird [OF False] Game_update_pipes [OF False]
    using bx ps by (rule conjI)
qed

lemma good_new_Game: "good new_Game"
  by (simp add: good_def new_Game_def new_Bird_def)

lemma good_jump: "good g \<Longrightarrow> good (g\<lparr>bird := jump cfg (bird g)\<rparr>)"
proof -
  have "pipe_ok (jump cfg (bird g)) = pipe_ok (bird g)"
    by (rule ext) (simp add: pipe_ok_def jump_def)
  then show "good g \<Longrightarrow> good (g\<lparr>bird := jump cfg (bird g)\<rparr>)"
    by (simp add: good_def jump_def)
qed

lemma good_handle:
  assumes "0 \<le> PIPE_SPEED cfg" and "good g"
  shows "good (handle cfg g e)"
  using assms
  by (cases e) (simp_all add: good_Game_update good_jump reset_new_Game good_new_Game)

lemma reachable_good:
  assumes "0 \<le> PIPE_SPEED cfg" and "reachable cfg g"
  shows "good g"
  using assms(2)
proof (induction rule: reachable.induct)
  case init
  show ?case by (rule good_new_Game)
next
  case (step g e)
  then show ?case by (simp add: good_handle [OF assms(1)])
qed

lemma reachable_run:
  "reachable cfg g \<Longrightarrow> list_all event_ok es \<Longrightarrow> reachable cfg (run cfg g es)"
  by (induction es arbitrary: g) (simp_all add: run_Nil run_Cons reachable.step)

lemma passed_no_collision:
  assumes "pipe_ok b p" and "passed p"
  shows "\<not> checkCollision p b"
  using assms by (simp add: pipe_ok_def checkCollision_iff)

lemma offscreen_passed:
  assumes "bird_x b = BIRD_X" and "pipe_ok b p" and "isOffscreen p"
  shows "passed p"
  using assms by (simp add: pipe_ok_def isOffscreen_def BIRD_X_def)

section \<open>Counting passed pipes\<close>

lemma count_passed_step:
  "length (filter passed (map (pipe_step cfg b) ps)) =
     length (filter passed ps) + length (filter (scores_now cfg b) ps)"
  by (induction ps) (auto simp add: pipe_step_passed scores_now_iff)

lemma count_passed_split:
  "list_all (\<lambda>p. isOffscreen p \<longrightarrow> passed p) qs \<Longrightarrow>
     length (filter passed qs) =
       length (filter passed (filter (\<lambda>p. \<not> isOffscreen p) qs)) + length (filter isOffscreen qs)"
  by (induction qs) auto

lemma count_passed_spawn:
  "length (filter passed (spawn_pipes cfg now1 rnd g)) = passed_count g"
  by (simp add: spawn_pipes_def passed_count_def new_Pipe_def Let_def)

lemma dropped_Tick:
  "\<not> gameOver g \<Longrightarrow> dropped cfg g (Tick now1 now2 rnd) =
     length (filter isOffscreen
       (map (pipe_step cfg (Bird_update cfg (bird g))) (spawn_pipes cfg now1 rnd g)))"
  by (simp add: forEach_pipe_eq)

lemma score_Game_update_count:
  assumes speed: "0 \<le> PIPE_SPEED cfg" and g: "good g" and playing: "\<not> gameOver g"
    and sc: "score g = passed_count g + k"
  shows "score (Game_update cfg now1 now2 rnd g) =
           passed_count (Game_update cfg now1 now2 rnd g) + (k + dropped cfg g (Tick now1 now2 rnd))"
proof -
  let ?b = "Bird_update cfg (bird g)"
  let ?ps = "spawn_pipes cfg now1 rnd g"
  let ?qs = "map (pipe_step cfg ?b) ?ps"
  from g have bx: "bird_x ?b = BIRD_X"
    by (simp add: good_def)
  have "list_all (pipe_ok ?b) ?qs"
    using speed g by (rule stepped_pipes_ok)
  then have "list_all (\<lambda>p. isOffscreen p \<longrightarrow> passed p) ?qs"
    using offscreen_passed [OF bx] by (simp add: list_all_iff)
  then have split: "length (filter passed ?qs) =
      length (filter passed (filter (\<lambda>p. \<not> isOffscreen p) ?qs)) + length (filter isOffscreen ?qs)"
    by (rule count_passed_split)
  have cnt: "length (filter passed ?qs) = passed_count g + length (filter (scores_now cfg ?b) ?ps)"
    by (simp only: count_passed_step count_passed_spawn)
  have d: "dropped cfg g (Tick now1 now2 rnd) = length (filter isOffscreen ?qs)"
    using playing by (rule dropped_Tick)
  have s: "score (Game_update cfg now1 now2 rnd g) = score g + length (filter (scores_now cfg ?b) ?ps)"
    using playing by (rule Game_update_score)
  have p: "passed_count (Game_update cfg now1 now2 rnd g) =
      length (filter passed (filter (\<lambda>p. \<not> isOffscreen p) ?qs))"
    by (simp only: passed_count_def Game_update_pipes [OF playing])
  show ?thesis
    unfolding d s p using split cnt sc by linarith
qed

lemma score_handle_count:
  assumes speed: "0 \<le> PIPE_SPEED cfg" and g: "good g" and sc: "score g = passed_count g + k"
  shows "score (handle cfg g e) =
           passed_count (handle cfg g e) + (if performs_reset g e then 0 else k + dropped cfg g e)"
proof (cases e)
  case (Tick now1 now2 rnd)
  show ?thesis
  proof (cases "gameOver g")
    case True
    with sc show ?thesis by (simp add: Tick Game_update_over)
  next
    case False
    from score_Game_update_count [OF speed g False sc, of now1 now2 rnd]
    show ?thesis by (simp add: Tick)
  qed
next
  case KeySpace
  with sc show ?thesis by (simp add: passed_count_def)
next
  case KeyR
  with sc show ?thesis by (simp add: passed_count_def reset_def)
next
  case Click
  with sc show ?thesis by (simp add: passed_count_def reset_def)
qed

lemma score_run_count:
  assumes speed: "0 \<le> PIPE_SPEED cfg"
  shows "good g \<Longrightarrow> score g = passed_count g + k \<Longrightarrow>
     score (run cfg g es) = passed_count (run cfg g es) + removed_since_reset cfg g k es"
proof (induction es arbitrary: g k)
  case Nil
  then show ?case by (simp add: run_Nil)
next
  case (Cons e es)
  have "good (handle cfg g e)"
    using speed Cons.prems(1) by (rule good_handle)
  moreover have "score (handle cfg g e) =
      passed_count (handle cfg g e) + (if performs_reset g e then 0 else k + dropped cfg g e)"
    using speed Cons.prems by (rule score_handle_count)
  ultimately show ?case
    using Cons.IH by (simp add: run_Cons)
qed

section \<open>The flight through the first pipe, frame by frame\<close>

lemmas hop_defs = run_def hop_def frame_defs bird_at_def pipe_at_def

lemma flight_39:
  "run game_js new_Game (hop 1 39) =
     \<lparr>bird = bird_at 300 (19 / 2), pipes = [pipe_at 283 False],
      score = 0, gameOver = False, lastPipeSpawn = 17\<rparr>"
  by (simp add: hop_defs)

lemma flight_78:
  "run game_js \<lparr>bird = bird_at 300 (19 / 2), pipes = [pipe_at 283 False],
      score = 0, gameOver = False, lastPipeSpawn = 17\<rparr> (hop 40 39) =
     \<lparr>bird = bird_at 300 (19 / 2), pipes = [pipe_at 166 False],
      score = 0, gameOver = False, lastPipeSpawn = 17\<rparr>"
  by (simp add: hop_defs)

lemma flight_117:
  "run game_js \<lparr>bird = bird_at 300 (19 / 2), pipes = [pipe_at 166 False],
      score = 0, gameOver = False, lastPipeSpawn = 17\<rparr> (hop 79 39) =
     \<lparr>bird = bird_at 300 (19 / 2), pipes = [pipe_at 49 False, pipe_at 316 False],
      score = 0, gameOver = False, lastPipeSpawn = 1530\<rparr>"
  by (simp add: hop_defs)

lemma flight_143:
  "run game_js \<lparr>bird = bird_at 300 (19 / 2), pipes = [pipe_at 49 False, pipe_at 316 False],
      score = 0, gameOver = False, lastPipeSpawn = 1530\<rparr> (hop 118 26) =
     \<lparr>bird = bird_at (431 / 2) 3, pipes = [pipe_at (- 29) False, pipe_at 238 False],
      score = 0, gameOver = False, lastPipeSpawn = 1530\<rparr>"
  by (simp add: hop_defs)

lemma flight_156:
  "run game_js \<lparr>bird = bird_at (431 / 2) 3, pipes = [pipe_at (- 29) False, pipe_at 238 False],
      score = 0, gameOver = False, lastPipeSpawn = 1530\<rparr> (frames 144 13) =
     \<lparr>bird = bird_at 300 (19 / 2), pipes = [pipe_at (- 68) True, pipe_at 199 False],
      score = 1, gameOver = False, lastPipeSpawn = 1530\<rparr>"
  by (simp add: hop_defs)

lemma flight_161:
  "run game_js \<lparr>bird = bird_at 300 (19 / 2), pipes = [pipe_at (- 68) True, pipe_at 199 False],
      score = 1, gameOver = False, lastPipeSpawn = 1530\<rparr> (hop 157 5) =
     \<lparr>bird = bird_at (515 / 2) (- (15 / 2)), pipes = [pipe_at 184 False],
      score = 1, gameOver = False, lastPipeSpawn = 1530\<rparr>"
  by (simp add: hop_defs)

lemma approach_state:
  "run game_js new_Game approach =
     \<lparr>bird = bird_at (431 / 2) 3, pipes = [pipe_at (- 29) False, pipe_at 238 False],
      score = 0, gameOver = False, lastPipeSpawn = 1530\<rparr>"
  by (simp only: approach_def run_append flight_39 flight_78 flight_117 flight_143)

lemma passing_state:
  "run game_js new_Game (approach @ frames 144 13) =
     \<lparr>bird = bird_at 300 (19 / 2), pipes = [pipe_at (- 68) True, pipe_at 199 False],
      score = 1, gameOver = False, lastPipeSpawn = 1530\<rparr>"
  by (simp only: run_append approach_state flight_156)

lemma flight_state:
  "run game_js new_Game flight =
     \<lparr>bird = bird_at (515 / 2) (- (15 / 2)), pipes = [pipe_at 184 False],
      score = 1, gameOver = False, lastPipeSpawn = 1530\<rparr>"
  by (simp only: flight_def run_append approach_state flight_156 flight_161)

lemma approach_ok: "list_all event_ok approach"
  by (simp add: approach_def hop_def all_frames_ok)

lemma flight_ok: "list_all event_ok flight"
  by (simp add: flight_def approach_ok hop_def all_frames_ok)

lemma game_js_speed: "0 \<le> PIPE_SPEED game_js"
  by (simp add: game_js_def)

lemma part_000_speed: "0 \<le> PIPE_SPEED part_000"
  by (simp add: part_000_def)

section \<open>Score and passed pipes\<close>

text \<open>
  C3, as stated, fails: a pipe that has been passed is removed once it is off the screen,
  and the score keeps its point. After the 161 frames of \<open>flight\<close> (a well-formed run from
  the initial state) the score is 1 and no live pipe has its \<open>passed\<close> flag set.
\<close>

theorem score_passed_count_counterexample:
  "list_all event_ok flight \<and>
   score (run game_js new_Game flight) \<noteq> passed_count (run game_js new_Game flight) \<and>
   score (run game_js new_Game flight) = 1 \<and>
   passed_count (run game_js new_Game flight) = 0"
  unfolding flight_state using flight_ok
  by (simp add: passed_count_def pipe_at_def)

text \<open>
  C3, amended. After every run from the initial state, whatever its frames, jumps and
  resets, the score equals the number of live pipes whose \<open>passed\<close> flag is set plus the
  number of pipes removed as off-screen since the last reset (pipes move left or stand:
  \<open>PIPE_SPEED\<close> is not negative).
\<close>

theorem score_passed_count:
  "0 \<le> PIPE_SPEED cfg \<Longrightarrow>
     score (run cfg new_Game es) =
       passed_count (run cfg new_Game es) + removed_since_reset cfg new_Game 0 es"
  by (rule score_run_count [OF _ good_new_Game]) (simp_all add: new_Game_def passed_count_def)

theorem score_passed_count_witness:
  "0 \<le> PIPE_SPEED game_js \<and>
   score (run game_js new_Game flight) = 1 \<and>
   passed_count (run game_js new_Game flight) = 0 \<and>
   removed_since_reset game_js new_Game 0 flight = 1"
proof -
  have a: "score (run game_js new_Game flight) = 1"
    and b: "passed_count (run game_js new_Game flight) = 0"
    unfolding flight_state by (simp_all add: passed_count_def pipe_at_def)
  from score_passed_count [OF game_js_speed, of flight] a b
  have "removed_since_reset game_js new_Game 0 flight = 1"
    by simp
  with a b game_js_speed show ?thesis
    by simp
qed

section \<open>The moment a pipe is passed\<close>

lemma life_not_Nil: "life cfg p bs \<noteq> []"
  by (cases bs) simp_all

lemma flips_life_Cons:
  "flips (p # life cfg q bs) = (if \<not> passed p \<and> passed q then 1 else 0) + flips (life cfg q bs)"
  by (cases bs) simp_all

lemma life_last_passed: "passed p \<Longrightarrow> passed (last (life cfg p bs))"
  by (induction bs arbitrary: p) (simp_all add: life_not_Nil pipe_step_passed)

lemma flips_life:
  "flips (life cfg p bs) = (if \<not> passed p \<and> passed (last (life cfg p bs)) then 1 else 0)"
proof (induction bs arbitrary: p)
  case Nil
  show ?case by simp
next
  case (Cons b bs)
  let ?q = "pipe_step cfg b p"
  have stays: "passed p \<Longrightarrow> passed ?q"
    by (simp add: pipe_step_passed)
  have "flips (life cfg p (b # bs)) =
      (if \<not> passed p \<and> passed ?q then 1 else 0) +
      (if \<not> passed ?q \<and> passed (last (life cfg ?q bs)) then 1 else 0)"
    by (simp only: life.simps flips_life_Cons Cons.IH)
  moreover have "last (life cfg p (b # bs)) = last (life cfg ?q bs)"
    by (simp add: life_not_Nil)
  ultimately show ?case
    using stays life_last_passed [of ?q cfg bs] by auto
qed

text \<open>
  C6, as stated, fails: not every pipe has its flag set once. In the game of a player who
  does nothing, the only pipe is spawned in frame 1, is at 301, well ahead of the bird,
  when the bird hits the floor in frame 33, and is discarded by the reset of the next click.
  No state of that run holds a pipe with the flag set: over its whole life the flag of this
  pipe went from false to true zero times.
\<close>

theorem passed_exactly_once_counterexample:
  "list_all event_ok (frames 1 33 @ [Click]) \<and>
   pipes (run game_js new_Game (frames 1 33)) = [pipe_at 301 False] \<and>
   gameOver (run game_js new_Game (frames 1 33)) \<and>
   pipes (run game_js new_Game (frames 1 33 @ [Click])) = [] \<and>
   list_all (\<lambda>g. length (pipes g) \<le> 1 \<and> list_all (\<lambda>p. \<not> passed p) (pipes g))
     (history game_js new_Game (frames 1 33 @ [Click])) \<and>
   last (life game_js (new_Pipe (3 / 8)) (map bird (tl (history game_js new_Game (frames 1 33)))))
     = pipe_at 301 False \<and>
   flips (life game_js (new_Pipe (3 / 8)) (map bird (tl (history game_js new_Game (frames 1 33))))) = 0 \<and>
   flips (life game_js (new_Pipe (3 / 8)) (map bird (tl (history game_js new_Game (frames 1 33))))) \<noteq> 1"
proof -
  have ok: "list_all event_ok (frames 1 33 @ [Click])"
    by (simp add: all_frames_ok)
  have crash: "pipes (run game_js new_Game (frames 1 33)) = [pipe_at 301 False]"
    "gameOver (run game_js new_Game (frames 1 33))"
    unfolding crash_state by simp_all
  have cleared: "pipes (run game_js new_Game (frames 1 33 @ [Click])) = []"
    unfolding run_append crash_state by (simp add: run_def reset_def)
  have never: "list_all (\<lambda>g. length (pipes g) \<le> 1 \<and> list_all (\<lambda>p. \<not> passed p) (pipes g))
     (history game_js new_Game (frames 1 33 @ [Click]))"
    by (simp add: frame_defs)
  have final: "last (life game_js (new_Pipe (3 / 8))
      (map bird (tl (history game_js new_Game (frames 1 33))))) = pipe_at 301 False"
    by (simp add: frame_defs pipe_at_def)
  have "\<not> passed (last (life game_js (new_Pipe (3 / 8))
      (map bird (tl (history game_js new_Game (frames 1 33))))))"
    unfolding final by (simp add: pipe_at_def)
  then have zero: "flips (life game_js (new_Pipe (3 / 8))
      (map bird (tl (history game_js new_Game (frames 1 33))))) = 0"
    by (simp only: flips_life) simp
  from ok crash cleared never final zero show ?thesis
    by simp
qed

text \<open>
  C6, amended. Over the life of a pipe the flag goes from false to true at most once, and
  exactly once precisely when it is set at the end of that life, as it is for every pipe
  removed as off-screen. In a frame of a reachable game that is not over, for every pipe
  the loop visits (the live ones and the one just spawned): a set flag stays set, a new
  pipe starting with it false; the flag goes from false to true in this frame exactly when
  the right edge of the pipe was not left of the bird before the frame and is left of it
  after, that is, on the first frame after which it is; the score grows in this frame by
  exactly the number of pipes whose flag is set in it; and a pipe that is removed as
  off-screen has had its flag set. Jumps leave the pipes alone.
\<close>

theorem passed_exactly_when_behind:
  "0 \<le> PIPE_SPEED cfg \<Longrightarrow> reachable cfg g \<Longrightarrow> \<not> gameOver g \<Longrightarrow>
   p \<in> set (spawn_pipes cfg now1 rnd g) \<Longrightarrow>
     (passed p \<longrightarrow> passed (pipe_step cfg (Bird_update cfg (bird g)) p)) \<and>
     ((\<not> passed p \<and> passed (pipe_step cfg (Bird_update cfg (bird g)) p)) \<longleftrightarrow>
        (\<not> pipe_x p + pipe_width p < bird_x (bird g) \<and>
         pipe_x (pipe_step cfg (Bird_update cfg (bird g)) p)
           + pipe_width (pipe_step cfg (Bird_update cfg (bird g)) p)
           < bird_x (bird (Game_update cfg now1 now2 rnd g)))) \<and>
     score (Game_update cfg now1 now2 rnd g) =
       score g + length (filter (\<lambda>q. \<not> passed q \<and> passed (pipe_step cfg (Bird_update cfg (bird g)) q))
                          (spawn_pipes cfg now1 rnd g)) \<and>
     \<not> passed (new_Pipe rnd) \<and>
     (isOffscreen (pipe_step cfg (Bird_update cfg (bird g)) p) \<longrightarrow>
        passed (pipe_step cfg (Bird_update cfg (bird g)) p)) \<and>
     pipes (handle cfg g KeySpace) = pipes g \<and> pipes (handle cfg g Click) = pipes g \<and>
     flips (life cfg (new_Pipe rnd') bs) \<le> 1 \<and>
     (flips (life cfg (new_Pipe rnd') bs) = 1 \<longleftrightarrow> passed (last (life cfg (new_Pipe rnd') bs)))"
proof -
  assume speed: "0 \<le> PIPE_SPEED cfg" and r: "reachable cfg g" and playing: "\<not> gameOver g"
    and p: "p \<in> set (spawn_pipes cfg now1 rnd g)"
  let ?b = "Bird_update cfg (bird g)"
  let ?p = "pipe_step cfg ?b p"
  from speed r have g: "good g"
    by (rule reachable_good)
  then have bx: "bird_x ?b = BIRD_X"
    by (simp add: good_def)
  have ok: "pipe_ok ?b p"
    using spawn_pipes_ok [OF g, of cfg now1 rnd] p by (simp add: list_all_iff)
  have ok': "pipe_ok ?b ?p"
    using speed ok by (rule pipe_step_ok)
  have stays: "passed p \<longrightarrow> passed ?p"
    by (simp add: pipe_step_passed)
  have moment: "(\<not> passed p \<and> passed ?p) \<longleftrightarrow>
      (\<not> pipe_x p + pipe_width p < bird_x (bird g) \<and>
       pipe_x ?p + pipe_width ?p < bird_x (bird (Game_update cfg now1 now2 rnd g)))"
    using ok ok' by (simp add: pipe_ok_def Game_update_bird [OF playing])
  have "(\<lambda>q. \<not> passed q \<and> passed (pipe_step cfg ?b q)) = scores_now cfg ?b"
    by (rule ext) (auto simp add: pipe_step_passed scores_now_iff)
  then have points: "score (Game_update cfg now1 now2 rnd g) =
      score g + length (filter (\<lambda>q. \<not> passed q \<and> passed (pipe_step cfg ?b q))
                         (spawn_pipes cfg now1 rnd g))"
    by (simp only: Game_update_score [OF playing])
  have fresh: "\<not> passed (new_Pipe rnd)"
    by (simp add: new_Pipe_def Let_def)
  have gone: "isOffscreen ?p \<longrightarrow> passed ?p"
    using offscreen_passed [OF bx ok'] by blast
  have jumps: "pipes (handle cfg g KeySpace) = pipes g \<and> pipes (handle cfg g Click) = pipes g"
    using playing by simp
  have "\<not> passed (new_Pipe rnd')"
    by (simp add: new_Pipe_def Let_def)
  then have once: "flips (life cfg (new_Pipe rnd') bs) \<le> 1 \<and>
      (flips (life cfg (new_Pipe rnd') bs) = 1 \<longleftrightarrow> passed (last (life cfg (new_Pipe rnd') bs)))"
    by (simp add: flips_life)
  from stays moment points fresh gone jumps once show ?thesis
    by blast
qed

theorem passed_exactly_when_behind_witness:
  "0 \<le> PIPE_SPEED game_js \<and> reachable game_js (run game_js new_Game approach) \<and>
   \<not> gameOver (run game_js new_Game approach) \<and>
   pipe_at (- 29) False \<in> set (spawn_pipes game_js 2448 (3 / 8) (run game_js new_Game approach)) \<and>
   \<not> passed (pipe_at (- 29) False) \<and>
   pipe_step game_js (Bird_update game_js (bird (run game_js new_Game approach))) (pipe_at (- 29) False)
     = pipe_at (- 32) True \<and>
   score (run game_js new_Game approach) = 0 \<and>
   score (Game_update game_js 2448 2448 (3 / 8) (run game_js new_Game approach)) = 1"
proof -
  let ?g = "run game_js new_Game approach"
  have r: "reachable game_js ?g"
    using reachable.init approach_ok by (rule reachable_run)
  have playing: "\<not> gameOver ?g"
    unfolding approach_state by simp
  have p: "pipe_at (- 29) False \<in> set (spawn_pipes game_js 2448 (3 / 8) ?g)"
    unfolding approach_state by (simp add: spawn_pipes_def spawn_due_def game_js_def)
  have moved: "pipe_step game_js (Bird_update game_js (bird ?g)) (pipe_at (- 29) False)
      = pipe_at (- 32) True"
    unfolding approach_state
    by (simp add: pipe_step_def Pipe_update_def pipe_at_def bird_at_def game_js_def Let_def)
  have before: "score ?g = 0"
    unfolding approach_state by simp
  from passed_exactly_when_behind [OF game_js_speed r playing p, of 2448]
  have "score (Game_update game_js 2448 2448 (3 / 8) ?g) =
      score ?g + length (filter (\<lambda>q. \<not> passed q \<and>
          passed (pipe_step game_js (Bird_update game_js (bird ?g)) q))
        (spawn_pipes game_js 2448 (3 / 8) ?g))"
    by blast
  also have "\<dots> = 1"
    unfolding approach_state
    by (simp add: spawn_pipes_def spawn_due_def pipe_step_def Pipe_update_def pipe_at_def
        bird_at_def Bird_update_def game_js_def Let_def)
  finally have after: "score (Game_update game_js 2448 2448 (3 / 8) ?g) = 1" .
  from game_js_speed r playing p moved before after show ?thesis
    by (simp add: pipe_at_def)
qed

section \<open>A passed pipe is harmless\<close>

text \<open>
  C8. In every reachable state a live pipe whose \<open>passed\<close> flag is set does not collide with
  the bird, and its flag is still set after the next move; so it is in every later state.
  Inside a frame, a pipe whose flag is set when the loop tests it does not collide either.
  Hence a frame ends the game only through a pipe whose flag is not set, or through the
  ceiling or the floor.
\<close>

theorem passed_never_collides:
  "0 \<le> PIPE_SPEED cfg \<Longrightarrow> reachable cfg g \<Longrightarrow>
     (\<forall>p \<in> set (pipes g). passed p \<longrightarrow>
        \<not> checkCollision p (bird g) \<and> passed (pipe_step cfg (Bird_update cfg (bird g)) p)) \<and>
     (\<forall>p \<in> set (spawn_pipes cfg now1 rnd g).
        passed (pipe_step cfg (Bird_update cfg (bird g)) p) \<longrightarrow>
        \<not> checkCollision (pipe_step cfg (Bird_update cfg (bird g)) p) (Bird_update cfg (bird g))) \<and>
     (\<not> gameOver g \<longrightarrow>
        gameOver (Game_update cfg now1 now2 rnd g) =
          (list_ex (\<lambda>p. \<not> passed (pipe_step cfg (Bird_update cfg (bird g)) p) \<and>
               checkCollision (pipe_step cfg (Bird_update cfg (bird g)) p) (Bird_update cfg (bird g)))
             (spawn_pipes cfg now1 rnd g)
           \<or> bird_y (Bird_update cfg (bird g)) < 0
           \<or> bird_y (Bird_update cfg (bird g)) + bird_height (Bird_update cfg (bird g)) > SCREEN_HEIGHT))"
proof -
  assume speed: "0 \<le> PIPE_SPEED cfg" and r: "reachable cfg g"
  let ?b = "Bird_update cfg (bird g)"
  from speed r have g: "good g"
    by (rule reachable_good)
  have live: "\<not> checkCollision p (bird g) \<and> passed (pipe_step cfg ?b p)"
    if "p \<in> set (pipes g)" "passed p" for p
  proof -
    from g that(1) have "pipe_ok (bird g) p"
      by (simp add: good_def list_all_iff)
    then have "\<not> checkCollision p (bird g)"
      using that(2) by (rule passed_no_collision)
    then show ?thesis
      using that(2) by (simp add: pipe_step_passed)
  qed
  have inside: "\<not> checkCollision (pipe_step cfg ?b p) ?b"
    if "p \<in> set (spawn_pipes cfg now1 rnd g)" "passed (pipe_step cfg ?b p)" for p
  proof -
    have "pipe_ok ?b (pipe_step cfg ?b p)"
      using stepped_pipes_ok [OF speed g, of now1 rnd] that(1) by (simp add: list_all_iff)
    then show ?thesis
      using that(2) by (rule passed_no_collision)
  qed
  have "list_ex (\<lambda>p. checkCollision (pipe_step cfg ?b p) ?b) (spawn_pipes cfg now1 rnd g) =
      list_ex (\<lambda>p. \<not> passed (pipe_step cfg ?b p) \<and> checkCollision (pipe_step cfg ?b p) ?b)
        (spawn_pipes cfg now1 rnd g)"
    using inside by (auto simp add: list_ex_iff)
  then have ends: "gameOver (Game_update cfg now1 now2 rnd g) =
      (list_ex (\<lambda>p. \<not> passed (pipe_step cfg ?b p) \<and> checkCollision (pipe_step cfg ?b p) ?b)
         (spawn_pipes cfg now1 rnd g)
       \<or> bird_y ?b < 0 \<or> bird_y ?b + bird_height ?b > SCREEN_HEIGHT)"
    if "\<not> gameOver g"
    by (simp only: Game_update_gameOver [OF that])
  from live inside ends show ?thesis
    by blast
qed

theorem passed_never_collides_witness:
  "0 \<le> PIPE_SPEED game_js \<and> reachable game_js (run game_js new_Game (approach @ frames 144 13)) \<and>
   pipe_at (- 68) True \<in> set (pipes (run game_js new_Game (approach @ frames 144 13))) \<and>
   passed (pipe_at (- 68) True) \<and>
   \<not> checkCollision (pipe_at (- 68) True) (bird (run game_js new_Game (approach @ frames 144 13))) \<and>
   \<not> gameOver (run game_js new_Game (approach @ frames 144 13)) \<and>
   \<not> gameOver (Game_update game_js 2669 2669 (3 / 8) (run game_js new_Game (approach @ frames 144 13)))"
proof -
  let ?g = "run game_js new_Game (approach @ frames 144 13)"
  have "list_all event_ok (approach @ frames 144 13)"
    by (simp add: approach_ok all_frames_ok)
  with reachable.init have r: "reachable game_js ?g"
    by (rule reachable_run)
  have p: "pipe_at (- 68) True \<in> set (pipes ?g)" and f: "passed (pipe_at (- 68) True)"
    and playing: "\<not> gameOver ?g"
    unfolding passing_state by (simp_all add: pipe_at_def)
  have still: "\<not> gameOver (Game_update game_js 2669 2669 (3 / 8) ?g)"
    unfolding passing_state by (simp add: frame_defs bird_at_def pipe_at_def)
  from passed_never_collides [OF game_js_speed r, of 2669 "3 / 8" 2669] p f
  have "\<not> checkCollision (pipe_at (- 68) True) (bird ?g)"
    by blast
  with game_js_speed r p f playing still show ?thesis
    by blast
qed

section \<open>The score never falls\<close>

text \<open>
  C10. An input that performs no reset never lowers the score: not a frame, not a jump; so
  along every run without a reset the score only grows, from every point of the run to
  every later one. A reset sets the score to 0.
\<close>

theorem score_monotone:
  "score g \<le> score (Game_update cfg now1 now2 rnd g) \<and>
   score (handle cfg g KeySpace) = score g \<and>
   (\<not> performs_reset g e \<longrightarrow> score g \<le> score (handle cfg g e)) \<and>
   (reset_free cfg g (es @ fs) \<longrightarrow> score (run cfg g es) \<le> score (run cfg g (es @ fs))) \<and>
   (performs_reset g e \<longrightarrow> score (handle cfg g e) = 0) \<and>
   score (reset g) = 0"
proof -
  have seq: "score (run cfg g es) \<le> score (run cfg g (es @ fs))" if "reset_free cfg g (es @ fs)"
  proof -
    from that have "reset_free cfg (run cfg g es) fs"
      by (simp add: reset_free_append)
    then show ?thesis
      by (simp add: run_append score_run_mono)
  qed
  have res: "score (handle cfg g e) = 0" if "performs_reset g e"
    using that by (cases e) (simp_all add: reset_def)
  show ?thesis
    using seq res by (simp add: score_Game_update_mono score_handle_mono reset_def)
qed

text \<open>The score goes from 0 to 1 along a run without reset, and a reset puts it back to 0.\<close>

theorem score_monotone_witness:
  "\<not> performs_reset (run game_js new_Game approach) (Tick 2448 2448 (3 / 8)) \<and>
   reset_free game_js new_Game (approach @ frames 144 13) \<and>
   score (run game_js new_Game approach) = 0 \<and>
   score (run game_js new_Game (approach @ frames 144 13)) = 1 \<and>
   score (run game_js new_Game approach) \<le> score (run game_js new_Game (approach @ frames 144 13)) \<and>
   performs_reset (run game_js new_Game (frames 1 33)) Click \<and>
   score (handle game_js (run game_js new_Game (frames 1 33)) Click) = 0"
proof -
  have free: "reset_free game_js new_Game (approach @ frames 144 13)"
    by (simp add: approach_def reset_free_append flight_39 flight_78 flight_117 flight_143
        hop_defs)
  have crash: "performs_reset (run game_js new_Game (frames 1 33)) Click"
    unfolding crash_state by simp
  have a: "score (run game_js new_Game approach) = 0"
    unfolding approach_state by simp
  have b: "score (run game_js new_Game (approach @ frames 144 13)) = 1"
    unfolding passing_state by simp
  from score_monotone [of "run game_js new_Game (frames 1 33)" game_js 0 0 0 Click "[]" "[]"] crash
  have c: "score (handle game_js (run game_js new_Game (frames 1 33)) Click) = 0"
    by blast
  from score_monotone [of new_Game game_js 0 0 0 KeySpace approach "frames 144 13"] free
  have d: "score (run game_js new_Game approach) \<le> score (run game_js new_Game (approach @ frames 144 13))"
    by blast
  from free crash a b c d show ?thesis
    by simp
qed

section \<open>Time between spawns\<close>

lemma spawn_log_append:
  "spawn_log cfg g (es @ fs) = spawn_log cfg g es @ spawn_log cfg (run cfg g es) fs"
  by (induction es arbitrary: g) (simp_all add: run_Nil run_Cons)

lemma spaced_Spawned:
  "spaced d (Spawned s # l) \<longleftrightarrow> spaced d l \<and> (\<forall>t l'. l = Spawned t # l' \<longrightarrow> d \<le> t - s)"
proof (cases l)
  case Nil
  then show ?thesis by simp
next
  case (Cons e l')
  then show ?thesis by (cases e) auto
qed

lemma lastPipeSpawn_handle:
  "lastPipeSpawn (handle cfg g e) =
     (case log_event cfg g e of
        [] \<Rightarrow> lastPipeSpawn g
      | Spawned t # l \<Rightarrow> t
      | WasReset # l \<Rightarrow> 0)"
proof (cases e)
  case (Tick now1 now2 rnd)
  then show ?thesis
    by (cases "gameOver g") (simp_all add: Game_update_over Game_update_lastPipeSpawn)
qed (simp_all add: reset_def)

lemma log_event_cases:
  "log_event cfg g e = [] \<or> log_event cfg g e = [WasReset] \<or>
   (\<exists>now1 now2 rnd. e = Tick now1 now2 rnd \<and> spawn_due cfg now1 g \<and> log_event cfg g e = [Spawned now2])"
  by (cases e) simp_all

lemma spaced_spawn_log:
  "list_all event_ok es \<Longrightarrow>
     spaced (SPAWN_INTERVAL cfg) (spawn_log cfg g es) \<and>
     (\<forall>s l. spawn_log cfg g es = Spawned s # l \<longrightarrow>
        lastPipeSpawn g = 0 \<or> SPAWN_INTERVAL cfg \<le> s - lastPipeSpawn g)"
proof (induction es arbitrary: g)
  case Nil
  show ?case by simp
next
  case (Cons e es)
  let ?g = "handle cfg g e"
  let ?d = "SPAWN_INTERVAL cfg"
  from Cons.prems have e: "event_ok e" and es: "list_all event_ok es"
    by simp_all
  from Cons.IH [OF es, of ?g]
  have rest: "spaced ?d (spawn_log cfg ?g es)"
    and head: "\<And>s l. spawn_log cfg ?g es = Spawned s # l \<Longrightarrow>
        lastPipeSpawn ?g = 0 \<or> ?d \<le> s - lastPipeSpawn ?g"
    by blast+
  from log_event_cases [of cfg g e] show ?case
  proof (elim disjE exE conjE)
    assume quiet: "log_event cfg g e = []"
    then have "lastPipeSpawn ?g = lastPipeSpawn g"
      by (simp add: lastPipeSpawn_handle)
    with rest head quiet show ?thesis
      by simp
  next
    assume "log_event cfg g e = [WasReset]"
    with rest show ?thesis
      by simp
  next
    fix now1 now2 rnd
    assume tick: "e = Tick now1 now2 rnd" and due: "spawn_due cfg now1 g"
      and l: "log_event cfg g e = [Spawned now2]"
    from e tick have clock: "0 < now1" "now1 \<le> now2"
      by simp_all
    from l have stored: "lastPipeSpawn ?g = now2"
      by (simp add: lastPipeSpawn_handle)
    have "?d \<le> t - now2" if "spawn_log cfg ?g es = Spawned t # l'" for t l'
      using head [OF that] stored clock by simp
    with rest have "spaced ?d (Spawned now2 # spawn_log cfg ?g es)"
      by (simp add: spaced_Spawned)
    moreover from due clock have "lastPipeSpawn g = 0 \<or> ?d \<le> now2 - lastPipeSpawn g"
      by (auto simp add: spawn_due_def)
    ultimately show ?thesis
      using l by simp
  qed
qed

lemma reset_free_log:
  "reset_free cfg g es \<Longrightarrow> filter is_Spawned (spawn_log cfg g es) = spawn_log cfg g es"
proof (induction es arbitrary: g)
  case Nil
  show ?case by simp
next
  case (Cons e es)
  from Cons.prems have "\<not> performs_reset g e" and "reset_free cfg (handle cfg g e) es"
    by simp_all
  moreover from \<open>\<not> performs_reset g e\<close> have "filter is_Spawned (log_event cfg g e) = log_event cfg g e"
    by (cases e) simp_all
  ultimately show ?case
    using Cons.IH by simp
qed

text \<open>
  C7, as stated, fails on runs with a reset: a reset sets \<open>lastPipeSpawn\<close> back to 0, and
  the next frame spawns whatever the clock says. In \<open>crash_restart\<close> the first pipe is
  spawned at 17 ms, the bird hits the floor, a click resets the game, and the next frame
  spawns a pipe at 578 ms, 561 ms after the previous one.
\<close>

theorem spawn_interval_counterexample:
  "list_all event_ok crash_restart \<and>
   spawn_log game_js new_Game crash_restart = [Spawned 17, WasReset, Spawned 578] \<and>
   \<not> spaced (SPAWN_INTERVAL game_js) (filter is_Spawned (spawn_log game_js new_Game crash_restart))"
proof -
  have ok: "list_all event_ok crash_restart"
    by (simp add: crash_restart_def all_frames_ok)
  have first: "spawn_log game_js new_Game (frames 1 33) = [Spawned 17]"
    by (simp add: frame_defs)
  have second: "spawn_log game_js (run game_js new_Game (frames 1 33)) (Click # frames 34 1)
      = [WasReset, Spawned 578]"
    unfolding crash_state by (simp add: frame_defs)
  have "spawn_log game_js new_Game crash_restart = [Spawned 17, WasReset, Spawned 578]"
    by (simp only: crash_restart_def spawn_log_append first second append.simps)
  with ok show ?thesis
    by (simp add: game_js_def)
qed

lemma log_event_push:
  "\<not> gameOver g \<Longrightarrow>
     spawn_pipes cfg now1 rnd g =
       pipes g @ (if log_event cfg g (Tick now1 now2 rnd) = [Spawned now2] then [new_Pipe rnd] else [])"
  by (simp add: spawn_pipes_def)

lemma log_event_reset: "log_event cfg (reset g) (Tick now1 now2 rnd) = [Spawned now2]"
  by (simp add: reset_def spawn_due_def)

text \<open>
  C7, amended. Let every clock reading be positive and the reading stored as the spawn
  time be no earlier than the reading tested. Then in every run from the initial state two
  consecutive spawns with no reset between them lie at least \<open>SPAWN_INTERVAL\<close> ms of clock
  time apart, however many frames there are in between; in a run without reset these are
  all pairs of consecutive spawns. The log speaks about the pipes: a frame of a game that
  is not over pushes a new pipe exactly when it logs a spawn, and a frame of a game that is
  over logs nothing. A reset restarts the timing: the first frame after it spawns.
\<close>

theorem spawn_interval:
  "list_all event_ok es \<Longrightarrow>
     spaced (SPAWN_INTERVAL cfg) (spawn_log cfg new_Game es) \<and>
     (reset_free cfg new_Game es \<longrightarrow>
        spaced (SPAWN_INTERVAL cfg) (filter is_Spawned (spawn_log cfg new_Game es))) \<and>
     (\<not> gameOver g \<longrightarrow>
        pipes (Game_update cfg now1 now2 rnd g) =
          filter (\<lambda>p. \<not> isOffscreen p)
            (map (pipe_step cfg (Bird_update cfg (bird g)))
               (pipes g @ (if log_event cfg g (Tick now1 now2 rnd) = [Spawned now2]
                           then [new_Pipe rnd] else [])))) \<and>
     (gameOver g \<longrightarrow> log_event cfg g (Tick now1 now2 rnd) = []) \<and>
     log_event cfg (reset g) (Tick now1 now2 rnd) = [Spawned now2] \<and>
     lastPipeSpawn (reset g) = 0"
proof -
  assume "list_all event_ok es"
  then have "spaced (SPAWN_INTERVAL cfg) (spawn_log cfg new_Game es)"
    using spaced_spawn_log [of es cfg new_Game] by blast
  then have timing: "spaced (SPAWN_INTERVAL cfg) (spawn_log cfg new_Game es) \<and>
     (reset_free cfg new_Game es \<longrightarrow>
        spaced (SPAWN_INTERVAL cfg) (filter is_Spawned (spawn_log cfg new_Game es)))"
    by (simp add: reset_free_log)
  have push: "pipes (Game_update cfg now1 now2 rnd g) =
      filter (\<lambda>p. \<not> isOffscreen p)
        (map (pipe_step cfg (Bird_update cfg (bird g)))
           (pipes g @ (if log_event cfg g (Tick now1 now2 rnd) = [Spawned now2]
                       then [new_Pipe rnd] else [])))"
    if "\<not> gameOver g"
    by (simp only: Game_update_pipes [OF that] log_event_push [OF that, of cfg now1 rnd now2])
  have quiet: "log_event cfg g (Tick now1 now2 rnd) = []" if "gameOver g"
    using that by simp
  have again: "log_event cfg (reset g) (Tick now1 now2 rnd) = [Spawned now2]"
    by (rule log_event_reset)
  have zero: "lastPipeSpawn (reset g) = 0"
    by (simp add: reset_def)
  from timing push quiet again zero show ?thesis
    by blast
qed

theorem spawn_interval_witness:
  "list_all event_ok approach \<and> reset_free game_js new_Game approach \<and>
   spawn_log game_js new_Game approach = [Spawned 17, Spawned 1530] \<and>
   spaced 1500 (filter is_Spawned (spawn_log game_js new_Game approach)) \<and>
   list_all event_ok crash_restart \<and>
   spaced 1500 (spawn_log game_js new_Game crash_restart) \<and>
   \<not> gameOver new_Game \<and>
   log_event game_js new_Game (Tick 17 17 (3 / 8)) = [Spawned 17] \<and>
   pipes (Game_update game_js 17 17 (3 / 8) new_Game) = [pipe_at 397 False] \<and>
   gameOver (run game_js new_Game (frames 1 33)) \<and>
   log_event game_js (run game_js new_Game (frames 1 33)) (Tick 578 578 (3 / 8)) = []"
proof -
  have free: "reset_free game_js new_Game approach"
    by (simp add: approach_def reset_free_append flight_39 flight_78 flight_117 hop_defs)
  have l: "spawn_log game_js new_Game approach = [Spawned 17, Spawned 1530]"
    by (simp add: approach_def spawn_log_append flight_39 flight_78 flight_117 hop_defs)
  have ok: "list_all event_ok crash_restart"
    by (simp add: crash_restart_def all_frames_ok)
  have playing: "\<not> gameOver new_Game"
    by (simp add: new_Game_def)
  have logged: "log_event game_js new_Game (Tick 17 17 (3 / 8)) = [Spawned 17]"
    by (simp add: new_Game_def spawn_due_def)
  have over: "gameOver (run game_js new_Game (frames 1 33))"
    unfolding crash_state by simp
  from spawn_interval [OF approach_ok, of game_js new_Game 17 17 "3 / 8"] free
  have a: "spaced 1500 (filter is_Spawned (spawn_log game_js new_Game approach))"
    by (simp add: game_js_def)
  from spawn_interval [OF ok, of game_js "run game_js new_Game (frames 1 33)" 578 578 "3 / 8"] over
  have b: "spaced 1500 (spawn_log game_js new_Game crash_restart)"
    and quiet: "log_event game_js (run game_js new_Game (frames 1 33)) (Tick 578 578 (3 / 8)) = []"
    by (simp_all add: game_js_def)
  from spawn_interval [OF approach_ok, of game_js new_Game 17 17 "3 / 8"] playing
  have "pipes (Game_update game_js 17 17 (3 / 8) new_Game) =
      filter (\<lambda>p. \<not> isOffscreen p)
        (map (pipe_step game_js (Bird_update game_js (bird new_Game)))
           (pipes new_Game @ (if log_event game_js new_Game (Tick 17 17 (3 / 8)) = [Spawned 17]
                       then [new_Pipe (3 / 8)] else [])))"
    by blast
  also have "\<dots> = [pipe_at 397 False]"
    unfolding logged
    by (simp add: new_Game_def new_Pipe_def pipe_step_def Pipe_update_def isOffscreen_def
        new_Bird_def Bird_update_def pipe_at_def game_js_def Let_def
        SCREEN_WIDTH_def SCREEN_HEIGHT_def PIPE_WIDTH_def PIPE_GAP_def BIRD_X_def)
  finally have pushed: "pipes (Game_update game_js 17 17 (3 / 8) new_Game) = [pipe_at 397 False]" .
  from approach_ok free l a ok b playing logged pushed over quiet show ?thesis
    by blast
qed

end
